theory Spec2Isabelle
  imports Main "HOL-Library.Sublist"
begin

section \<open>JavaScript string primitives\<close>

text \<open>
  A JavaScript string is modelled as a \<^typ>\<open>string\<close>: one \<^typ>\<open>char\<close> per code unit,
  for texts whose code units are all below 256.  The functions below are the library
  operations the two components call, restricted to that range.
\<close>

definition backslash :: char where
  "backslash = CHR 0x5C"

definition tabChar :: char where
  "tabChar = CHR 0x09"

definition newline :: char where
  "newline = CHR 0x0A"

definition dquote :: char where
  "dquote = CHR 0x22"

text \<open>The white space and line terminators that \<^verbatim>\<open>String.prototype.trim\<close> removes.\<close>

definition isSpace :: "char \<Rightarrow> bool" where
  "isSpace c = (c \<in> set [CHR 0x09, CHR 0x0A, CHR 0x0B, CHR 0x0C, CHR 0x0D, CHR 0x20, CHR 0xA0])"

definition trim :: "string \<Rightarrow> string" where
  "trim s = rev (dropWhile isSpace (rev (dropWhile isSpace s)))"

text \<open>The class \<^verbatim>\<open>\d\<close>; its complement is \<^verbatim>\<open>\D\<close>.\<close>

definition isDigit :: "char \<Rightarrow> bool" where
  "isDigit c = (c \<in> set ''0123456789'')"

text \<open>\<^verbatim>\<open>toLowerCase\<close> on code units below 256.\<close>

definition toLowerChar :: "char \<Rightarrow> char" where
  "toLowerChar c =
     (let n = (of_char c :: nat)
      in if (65 \<le> n \<and> n \<le> 90) \<or> (192 \<le> n \<and> n \<le> 222 \<and> n \<noteq> 215)
         then char_of (n + 32) else c)"

definition toLowerCase :: "string \<Rightarrow> string" where
  "toLowerCase s = map toLowerChar s"

text \<open>\<^verbatim>\<open>s.includes(t)\<close>, \<^verbatim>\<open>s.startsWith(t)\<close>, \<^verbatim>\<open>s.endsWith(t)\<close>.\<close>

definition includesStr :: "string \<Rightarrow> string \<Rightarrow> bool" where
  "includesStr s t = sublist t s"

definition startsWith :: "string \<Rightarrow> string \<Rightarrow> bool" where
  "startsWith s t = prefix t s"

definition endsWith :: "string \<Rightarrow> string \<Rightarrow> bool" where
  "endsWith s t = suffix t s"

text \<open>
  \<^verbatim>\<open>s.substring(a, b)\<close>: both indices are clamped to the length and swapped when
  \<open>a > b\<close>; \<^verbatim>\<open>s.substring(a)\<close> runs to the end.
\<close>

definition substring :: "string \<Rightarrow> nat \<Rightarrow> nat \<Rightarrow> string" where
  "substring s a b =
     (let a' = min a (length s); b' = min b (length s);
          lo = min a' b'; hi = max a' b'
      in take (hi - lo) (drop lo s))"

definition substringFrom :: "string \<Rightarrow> nat \<Rightarrow> string" where
  "substringFrom s a = drop a s"

text \<open>
  \<^verbatim>\<open>s.split(sep)\<close>.  The separator is given by a matcher that returns the length of
  the match starting at the head of its argument, 0 when there is none.  The scan goes
  left to right, matches do not overlap, and a separator at the very end leaves a last
  empty piece.
\<close>

fun splitBy :: "(string \<Rightarrow> nat) \<Rightarrow> string \<Rightarrow> string \<Rightarrow> string list" where
  "splitBy m acc [] = [rev acc]"
| "splitBy m acc (c # cs) =
     (case m (c # cs) of
        0 \<Rightarrow> splitBy m (c # acc) cs
      | Suc k \<Rightarrow> rev acc # splitBy m [] (drop k cs))"

text \<open>Splitting on a literal, non-empty separator string.\<close>

definition matchLiteral :: "string \<Rightarrow> string \<Rightarrow> nat" where
  "matchLiteral sep s = (if prefix sep s then length sep else 0)"

definition split :: "string \<Rightarrow> string \<Rightarrow> string list" where
  "split s sep = splitBy (matchLiteral sep) [] s"

text \<open>
  The line splitter of the file path is the regular expression literal
  \<^verbatim>\<open>/\\r?\\n/\<close>: a backslash, an optional letter r, a backslash, the letter n.
\<close>

definition matchLineBreak :: "string \<Rightarrow> nat" where
  "matchLineBreak s =
     (if prefix [backslash, backslash, CHR ''n''] s then 3
      else if prefix [backslash, CHR ''r'', backslash, CHR ''n''] s then 4
      else 0)"

definition splitLines :: "string \<Rightarrow> string list" where
  "splitLines csv = splitBy matchLineBreak [] csv"

text \<open>
  \<^verbatim>\<open>s.replace(/\\D/g, '')\<close> of the file path: the pattern is a backslash followed
  by the letter D, and every occurrence is deleted.
\<close>

fun removeBackslashD :: "string \<Rightarrow> string" where
  "removeBackslashD (a # b # cs) =
     (if a = backslash \<and> b = CHR ''D'' then removeBackslashD cs
      else a # removeBackslashD (b # cs))"
| "removeBackslashD cs = cs"

text \<open>\<^verbatim>\<open>s.replace(/\D/g, '')\<close> of the direct-input path: every non-digit is deleted.\<close>

definition removeNonDigits :: "string \<Rightarrow> string" where
  "removeNonDigits s = filter isDigit s"

text \<open>
  \<^verbatim>\<open>s.replace(/^"|"$/g, '')\<close>: a double quote at the start and a double quote at
  the end are deleted (a one-character string consisting of a quote becomes empty).
\<close>

definition stripQuotes :: "string \<Rightarrow> string" where
  "stripQuotes s =
     (let s1 = (case s of c # cs \<Rightarrow> if c = dquote then cs else s | [] \<Rightarrow> [])
      in if s1 \<noteq> [] \<and> last s1 = dquote then butlast s1 else s1)"

text \<open>\<^verbatim>\<open>arr.findIndex(p)\<close> and \<^verbatim>\<open>arr.indexOf(x)\<close>; the result -1 is \<^const>\<open>None\<close>.\<close>

fun findIndex :: "('a \<Rightarrow> bool) \<Rightarrow> 'a list \<Rightarrow> nat option" where
  "findIndex p [] = None"
| "findIndex p (x # xs) = (if p x then Some 0 else map_option Suc (findIndex p xs))"

definition indexOf :: "'a list \<Rightarrow> 'a \<Rightarrow> nat option" where
  "indexOf xs x = findIndex (\<lambda>y. y = x) xs"

text \<open>\<^verbatim>\<open>arr[i]\<close>: reading past the end gives \<^verbatim>\<open>undefined\<close>, here \<^const>\<open>None\<close>.\<close>

definition at :: "'a list \<Rightarrow> nat \<Rightarrow> 'a option" where
  "at xs i = (if i < length xs then Some (xs ! i) else None)"


section \<open>RichTextEditor: formatText\<close>

text \<open>
  \<open>formatText\<close> reads the selection of the text area found in the document
  (\<^const>\<open>None\<close> when there is none), and for the link formatter the answer to the
  prompt (\<^const>\<open>None\<close> or the empty string when the user gives no URL).  The result
  is the argument of \<^verbatim>\<open>onChange\<close>, or \<^const>\<open>None\<close> when the function returns
  without calling it.
\<close>

definition formattedText :: "string \<Rightarrow> string option \<Rightarrow> string \<Rightarrow> string option" where
  "formattedText formatter url selectedText =
     (if formatter = ''bold'' then Some (''*'' @ selectedText @ ''*'')
      else if formatter = ''italic'' then Some (''_'' @ selectedText @ ''_'')
      else if formatter = ''strikethrough'' then Some (''~'' @ selectedText @ ''~'')
      else if formatter = ''link'' then
        (case url of
           None \<Rightarrow> None
         | Some u \<Rightarrow>
             if u = [] then None
             else if selectedText \<noteq> [] then Some (''['' @ selectedText @ '']('' @ u @ '')'')
             else Some u)
      else None)"

definition formatText ::
  "string \<Rightarrow> string option \<Rightarrow> (nat \<times> nat) option \<Rightarrow> string \<Rightarrow> string option" where
  "formatText formatter url textarea val =
     (case textarea of
        None \<Rightarrow> None
      | Some (selStart, selEnd) \<Rightarrow>
          (case formattedText formatter url (substring val selStart selEnd) of
             None \<Rightarrow> None
           | Some ft \<Rightarrow> Some (substring val 0 selStart @ ft @ substringFrom val selEnd)))"

text \<open>The WhatsApp marker of each of the three wrapping formatters.\<close>

definition wrapMarkers :: "(string \<times> string) list" where
  "wrapMarkers = [(''bold'', ''*''), (''italic'', ''_''), (''strikethrough'', ''~'')]"


section \<open>CSVImporter: data and state\<close>

record ContactImport =
  name :: string
  phoneNumber :: string
  isValid :: bool

datatype step = StepUpload | StepMap | StepPreview | StepConfirm

text \<open>
  A selected file: its name, its MIME type, its text, and whether the reader can read it
  (\<^verbatim>\<open>onerror\<close> fires otherwise).  The text is taken one byte per character, so that
  the size of the file is the length of its text.
\<close>

record csvFile =
  fileName :: string
  fileType :: string
  content :: string
  readable :: bool

text \<open>
  The component state (the field \<open>file'\<close> is the state variable \<^verbatim>\<open>file\<close>, the field
  \<open>dialogOpen\<close> the variable \<^verbatim>\<open>open\<close>).  A column selection is a string, or
  \<^verbatim>\<open>undefined\<close> (\<^const>\<open>None\<close>) when it was read past the end of the header array.
\<close>

record state =
  dialogOpen :: bool
  file' :: "csvFile option"
  contacts :: "ContactImport list"
  nameColumn :: "string option"
  phoneColumn :: "string option"
  columns :: "string list"
  isProcessing :: bool
  previewData :: "string list list"
  step :: step

definition initialState :: state where
  "initialState =
     \<lparr>dialogOpen = False, file' = None, contacts = [], nameColumn = Some [],
      phoneColumn = Some [], columns = [], isProcessing = False, previewData = [],
      step = StepUpload\<rparr>"

definition resetState :: "state \<Rightarrow> state" where
  "resetState s =
     s\<lparr>file' := None, contacts := [], nameColumn := Some [], phoneColumn := Some [],
       columns := [], previewData := [], step := StepUpload, isProcessing := False\<rparr>"

text \<open>What a handler emits: notifications, console diagnostics, and the completion callback.\<close>

datatype toast =
    ToastInvalidFormat
  | ToastCsvError
  | ToastReadError
  | ToastSelectionRequired
  | ToastContactsError
  | ToastFileError
  | ToastNoValidContact
  | ToastImported nat

datatype effect =
    Toast toast
  | ConsoleError
  | ConsoleWarn nat
  | OnComplete "ContactImport list"

text \<open>The truthiness test \<^verbatim>\<open>!column\<close>: undefined and the empty string are falsy.\<close>

definition falsy :: "string option \<Rightarrow> bool" where
  "falsy c = (case c of None \<Rightarrow> True | Some v \<Rightarrow> v = [])"


section \<open>CSVImporter: parsing\<close>

text \<open>
  The candidates are the strings \<^verbatim>\<open>','\<close>, \<^verbatim>\<open>';'\<close> and \<^verbatim>\<open>'\\t'\<close>, the last being the
  two characters backslash and t.  Each is compiled to a regular expression to count its
  matches; as a pattern, backslash-t matches the tab character.
\<close>

definition delimiters :: "string list" where
  "delimiters = ['','', '';'', [backslash, CHR ''t'']]"

definition regExpChar :: "string \<Rightarrow> char" where
  "regExpChar delimiter = (if delimiter = [backslash, CHR ''t''] then tabChar else hd delimiter)"

definition matchCount :: "string \<Rightarrow> string \<Rightarrow> nat" where
  "matchCount headerLine delimiter = count_list headerLine (regExpChar delimiter)"

definition detectDelimiter :: "string \<Rightarrow> string" where
  "detectDelimiter headerLine =
     fst (foldl (\<lambda>(bestDelimiter, maxCount) delimiter.
                   let count = matchCount headerLine delimiter
                   in if count > maxCount then (delimiter, count)
                      else (bestDelimiter, maxCount))
                ('','', 0) delimiters)"

text \<open>\<^verbatim>\<open>csv.split(/\\r?\\n/).filter(line => line.trim().length > 0)\<close>\<close>

definition csvLines :: "string \<Rightarrow> string list" where
  "csvLines csv = filter (\<lambda>line. length (trim line) > 0) (splitLines csv)"

text \<open>\<^verbatim>\<open>line.split(delimiter).map(cell => cell.trim().replace(/^"|"$/g, ''))\<close>\<close>

definition splitRow :: "string \<Rightarrow> string \<Rightarrow> string list" where
  "splitRow delimiter line = map (\<lambda>cell. stripQuotes (trim cell)) (split line delimiter)"

text \<open>The byte-order-mark test compares with the six characters backslash, u, f, e, f, f.\<close>

definition bomLiteral :: string where
  "bomLiteral = backslash # ''ufeff''"

definition stripBom :: "string \<Rightarrow> string" where
  "stripBom s = (if startsWith s bomLiteral then substringFrom s 1 else s)"

text \<open>The two column guesses of \<open>processCSV\<close>.\<close>

definition isNameHeader :: "string \<Rightarrow> bool" where
  "isNameHeader h =
     (let normalized = trim (toLowerCase h)
      in normalized = ''nome'' \<or> normalized = ''name'' \<or> normalized = ''cliente'' \<or>
         normalized = ''contato'' \<or> includesStr normalized ''nome'' \<or>
         includesStr normalized ''name'')"

definition isPhoneHeader :: "string \<Rightarrow> bool" where
  "isPhoneHeader h =
     (let normalized = trim (toLowerCase h)
      in normalized = ''telefone'' \<or> normalized = ''phone'' \<or> normalized = ''celular'' \<or>
         normalized = ''whatsapp'' \<or> normalized = ''numero'' \<or> normalized = ''number'' \<or>
         normalized = ''tel'' \<or> includesStr normalized ''telefone'' \<or>
         includesStr normalized ''phone'' \<or> includesStr normalized ''celular'' \<or>
         includesStr normalized ''whatsapp'')"

definition guessNameColumn :: "string list \<Rightarrow> nat option" where
  "guessNameColumn headers = findIndex isNameHeader headers"

definition guessPhoneColumn :: "string list \<Rightarrow> nat option" where
  "guessPhoneColumn headers = findIndex isPhoneHeader headers"


section \<open>CSVImporter: mapping the rows of a file\<close>

datatype error = TypeError | ColumnsNotFound

text \<open>The phone field of a row, as \<open>validateAndMapContacts\<close> rewrites it.\<close>

definition normalizePhone :: "string \<Rightarrow> string" where
  "normalizePhone v =
     (let phoneNumber = removeBackslashD v
      in if length phoneNumber \<le> 12 \<and> \<not> startsWith phoneNumber ''55''
         then ''55'' @ phoneNumber else phoneNumber)"

text \<open>One split row; \<^const>\<open>None\<close> when the row is too short and is skipped.\<close>

definition mapRow :: "nat \<Rightarrow> nat \<Rightarrow> string list \<Rightarrow> ContactImport option" where
  "mapRow nameIndex phoneIndex values =
     (if length values \<le> max nameIndex phoneIndex then None
      else let phoneNumber = normalizePhone (values ! phoneIndex)
           in Some \<lparr>name = values ! nameIndex, phoneNumber = phoneNumber,
                     isValid = (length phoneNumber \<ge> 12)\<rparr>)"

text \<open>
  The loop over the data lines, \<open>i\<close> being the index of the line in the array of lines.
  It returns the mapped contacts and the console warnings of the skipped rows.
\<close>

fun mapRows ::
  "string \<Rightarrow> nat \<Rightarrow> nat \<Rightarrow> nat \<Rightarrow> string list \<Rightarrow> ContactImport list \<times> effect list" where
  "mapRows delimiter nameIndex phoneIndex i [] = ([], [])"
| "mapRows delimiter nameIndex phoneIndex i (line # rest) =
     (let (mapped, warns) = mapRows delimiter nameIndex phoneIndex (i + 1) rest
      in if trim line = [] then (mapped, warns)
         else case mapRow nameIndex phoneIndex (splitRow delimiter line) of
                None \<Rightarrow> (mapped, ConsoleWarn (i + 1) # warns)
              | Some c \<Rightarrow> (c # mapped, warns))"

definition headerFields :: "string \<Rightarrow> string \<Rightarrow> error + string list" where
  "headerFields delimiter headerLine =
     (case splitRow delimiter headerLine of
        [] \<Rightarrow> Inl TypeError
      | h # hs \<Rightarrow> Inr (stripBom h # hs))"

definition indexOfColumn :: "string list \<Rightarrow> string option \<Rightarrow> nat option" where
  "indexOfColumn headers col = (case col of None \<Rightarrow> None | Some v \<Rightarrow> indexOf headers v)"

text \<open>
  The body of the \<^verbatim>\<open>try\<close> block that runs on the text of the file.  With no
  non-blank line, \<^verbatim>\<open>lines[0]\<close> is undefined and \<open>detectDelimiter\<close> throws.
\<close>

definition mapContacts ::
  "string \<Rightarrow> string option \<Rightarrow> string option \<Rightarrow> error + (ContactImport list \<times> effect list)" where
  "mapContacts csv nameCol phoneCol =
     (case csvLines csv of
        [] \<Rightarrow> Inl TypeError
      | headerLine # rest \<Rightarrow>
          let delimiter = detectDelimiter headerLine
          in case headerFields delimiter headerLine of
               Inl e \<Rightarrow> Inl e
             | Inr headers \<Rightarrow>
                 (case (indexOfColumn headers nameCol, indexOfColumn headers phoneCol) of
                    (Some nameIndex, Some phoneIndex) \<Rightarrow>
                      Inr (mapRows delimiter nameIndex phoneIndex 1 rest)
                  | _ \<Rightarrow> Inl ColumnsNotFound))"

text \<open>
  \<open>validateAndMapContacts\<close>.  The handler is a closure: it reads \<open>nameColumn\<close>,
  \<open>phoneColumn\<close> and \<open>file\<close> from the state \<open>c\<close> of the render that created it, and
  its setters act on the current state \<open>s\<close>.  A button click runs it with \<open>c = s\<close>.
\<close>

definition validateAndMapContacts :: "state \<Rightarrow> state \<Rightarrow> state \<times> effect list" where
  "validateAndMapContacts c s =
     (if falsy (nameColumn c) \<or> falsy (phoneColumn c)
      then (s, [Toast ToastSelectionRequired])
      else
        case file' c of
          None \<Rightarrow> (s\<lparr>isProcessing := False\<rparr>, [Toast ToastFileError])
        | Some f \<Rightarrow>
            if \<not> readable f then (s\<lparr>isProcessing := False\<rparr>, [Toast ToastReadError])
            else
              case mapContacts (content f) (nameColumn c) (phoneColumn c) of
                Inl e \<Rightarrow> (s\<lparr>isProcessing := False\<rparr>, [ConsoleError, Toast ToastContactsError])
              | Inr (mappedContacts, warns) \<Rightarrow>
                  (s\<lparr>contacts := mappedContacts, isProcessing := False,
                     step := StepPreview\<rparr>, warns))"


section \<open>CSVImporter: reading a selected file\<close>

definition CHUNK_SIZE :: nat where
  "CHUNK_SIZE = 1024 * 1024"

text \<open>The slices read after the first read, starting at \<open>offset\<close>.\<close>

function readSlices :: "string \<Rightarrow> nat \<Rightarrow> string list" where
  "readSlices txt offset =
     (if offset < length txt
      then take CHUNK_SIZE (drop offset txt) # readSlices txt (offset + CHUNK_SIZE)
      else [])"
  by pat_completeness auto
termination
  by (relation "measure (\<lambda>(txt, offset). length txt - offset)") (auto simp: CHUNK_SIZE_def)

declare readSlices.simps [simp del]

text \<open>
  The first read is of the whole file; its result is pushed, and the slices follow.
  The text that is parsed is the concatenation of all of them.
\<close>

definition readChunks :: "string \<Rightarrow> string" where
  "readChunks txt = concat (txt # readSlices txt 0)"

text \<open>
  \<open>processCSV\<close>, with the two callbacks of its reader.  It ends by calling the
  \<open>validateAndMapContacts\<close> of the render in which the file was selected, whose closure
  state \<open>c\<close> is the state before the selection.
\<close>

definition processCSV :: "state \<Rightarrow> state \<Rightarrow> csvFile \<Rightarrow> state \<times> effect list" where
  "processCSV c s csvFile =
     (if \<not> readable csvFile then (s\<lparr>isProcessing := False\<rparr>, [Toast ToastReadError])
      else
        case csvLines (readChunks (content csvFile)) of
          [] \<Rightarrow> (s\<lparr>isProcessing := False\<rparr>, [ConsoleError, Toast ToastCsvError])
        | firstLine # rest \<Rightarrow>
            let headerLine = stripBom firstLine;
                lines = headerLine # rest;
                delimiter = detectDelimiter headerLine;
                headers = splitRow delimiter headerLine;
                nameColumnIndex = guessNameColumn headers;
                phoneColumnIndex = guessPhoneColumn headers;
                preview = map (splitRow delimiter) (take 5 lines);
                s1 = s\<lparr>columns := headers, previewData := preview, isProcessing := False,
                       nameColumn := (case nameColumnIndex of
                                        Some i \<Rightarrow> at headers i | None \<Rightarrow> at headers 0),
                       phoneColumn := (case phoneColumnIndex of
                                         Some i \<Rightarrow> at headers i | None \<Rightarrow> at headers 1)\<rparr>
            in validateAndMapContacts c s1)"

definition handleFileChange :: "state \<Rightarrow> csvFile option \<Rightarrow> state \<times> effect list" where
  "handleFileChange s files =
     (case files of
        None \<Rightarrow> (s, [])
      | Some selectedFile \<Rightarrow>
          let s1 = s\<lparr>file' := Some selectedFile\<rparr>
          in if fileType selectedFile \<noteq> ''text/csv'' \<and> \<not> endsWith (fileName selectedFile) ''.csv''
             then (s1, [Toast ToastInvalidFormat])
             else processCSV s s1 selectedFile)"


section \<open>CSVImporter: confirmation and direct input\<close>

definition handleConfirm :: "state \<Rightarrow> state \<times> effect list" where
  "handleConfirm s =
     (let validContacts = filter isValid (contacts s)
      in if length validContacts = 0 then (s, [Toast ToastNoValidContact])
         else ((resetState s)\<lparr>dialogOpen := False\<rparr>,
               [OnComplete validContacts, Toast (ToastImported (length validContacts))]))"

text \<open>The \<^verbatim>\<open>onChange\<close> handler of the text area of the direct-input tab.\<close>

definition mapDirectInput :: "string \<Rightarrow> ContactImport list" where
  "mapDirectInput v =
     (let numbers = filter (\<lambda>n. length n > 0)
                      (map (\<lambda>n. removeNonDigits (trim n)) (split v [newline]))
      in map (\<lambda>phoneNumber.
                \<lparr>name = phoneNumber,
                 phoneNumber = (if startsWith phoneNumber ''55'' then phoneNumber
                                else ''55'' @ phoneNumber),
                 isValid = (length phoneNumber \<ge> 10)\<rparr>) numbers)"

definition directChange :: "string \<Rightarrow> state \<Rightarrow> state \<times> effect list" where
  "directChange v s =
     (let cs = mapDirectInput v
      in if length cs > 0 then (s\<lparr>contacts := cs, step := StepPreview\<rparr>, [])
         else (s\<lparr>contacts := cs\<rparr>, []))"

text \<open>The \<^verbatim>\<open>onClick\<close> handler of the send button of the direct-input tab.\<close>

definition directSend :: "state \<Rightarrow> state \<times> effect list" where
  "directSend s =
     (let validContacts = filter isValid (contacts s)
      in if length validContacts > 0
         then (resetState (s\<lparr>dialogOpen := False\<rparr>), [OnComplete validContacts])
         else (s, []))"


section \<open>CSVImporter: the events of the dialog\<close>

text \<open>
  One event per handler the rendered dialog offers.  An element that is not rendered in
  the current step, or is disabled, has no effect; nothing but the trigger is rendered
  while the dialog is closed.  The asynchronous reads of one event are taken to finish
  before the next event.
\<close>

datatype event =
    OpenChange bool
  | FileChange "csvFile option"
  | SelectName string
  | SelectPhone string
  | ClickContinue
  | ClickBack
  | ClickCancel
  | ClickConfirm
  | DirectChange string
  | DirectSend

definition hasValid :: "state \<Rightarrow> bool" where
  "hasValid s = (length (filter isValid (contacts s)) \<noteq> 0)"

definition dispatch :: "event \<Rightarrow> state \<Rightarrow> state \<times> effect list" where
  "dispatch e s =
     (case e of
        OpenChange newOpen \<Rightarrow> ((if newOpen then s else resetState s)\<lparr>dialogOpen := newOpen\<rparr>, [])
      | _ \<Rightarrow>
        if \<not> dialogOpen s then (s, [])
        else
          (case e of
             FileChange files \<Rightarrow>
               if step s = StepUpload then handleFileChange s files else (s, [])
           | SelectName v \<Rightarrow>
               if step s = StepMap then (s\<lparr>nameColumn := Some v\<rparr>, []) else (s, [])
           | SelectPhone v \<Rightarrow>
               if step s = StepMap then (s\<lparr>phoneColumn := Some v\<rparr>, []) else (s, [])
           | ClickContinue \<Rightarrow>
               if step s = StepMap \<and>
                  \<not> (falsy (nameColumn s) \<or> falsy (phoneColumn s) \<or> isProcessing s)
               then validateAndMapContacts s s else (s, [])
           | ClickBack \<Rightarrow>
               if step s = StepMap then (s\<lparr>step := StepUpload\<rparr>, [])
               else if step s = StepPreview then (s\<lparr>step := StepMap\<rparr>, [])
               else (s, [])
           | ClickCancel \<Rightarrow>
               if step s = StepUpload then (s\<lparr>dialogOpen := False\<rparr>, []) else (s, [])
           | ClickConfirm \<Rightarrow>
               if step s = StepPreview \<and> hasValid s then handleConfirm s else (s, [])
           | DirectChange v \<Rightarrow> directChange v s
           | DirectSend \<Rightarrow> if hasValid s then directSend s else (s, [])
           | OpenChange newOpen \<Rightarrow> (s, [])))"


text \<open>A session: the events of the user, one after the other.\<close>

fun run :: "event list \<Rightarrow> state \<Rightarrow> state" where
  "run [] s = s"
| "run (e # es) s = run es (fst (dispatch e s))"


section \<open>Properties of formatText\<close>

lemma substring_take_drop:
  "a \<le> b \<Longrightarrow> substring s a b = take (b - a) (drop a s)"
  unfolding substring_def Let_def
  by (cases "a \<le> length s"; cases "b \<le> length s") (simp_all add: min_def max_def)

lemma substring_from_zero: "substring s 0 a = take a s"
  by (cases "a \<le> length s") (simp_all add: substring_def Let_def min_def)

lemma formattedText_wrap:
  assumes "(formatter, m) \<in> set wrapMarkers"
  shows "formattedText formatter url t = Some (m @ t @ m)"
proof -
  from assms consider "formatter = ''bold'' \<and> m = ''*''" | "formatter = ''italic'' \<and> m = ''_''"
    | "formatter = ''strikethrough'' \<and> m = ''~''"
    unfolding wrapMarkers_def by (simp only: set_simps insert_iff empty_iff prod.inject) blast
  then show ?thesis
  proof cases
    case 1 then show ?thesis by (simp add: formattedText_def)
  next
    case 2 then show ?thesis by (simp add: formattedText_def)
  next
    case 3 then show ?thesis by (simp add: formattedText_def)
  qed
qed

lemma drop_prefix: "length xs = n \<Longrightarrow> drop n (xs @ ys) = ys"
  by simp

text \<open>
  Claim C10.  For a value and a selection \<open>selStart \<le> selEnd \<le> length val\<close>, the bold,
  italic and strikethrough formatters call \<^verbatim>\<open>onChange\<close> with the text before the
  selection, the marker, the selected text, the marker again, and the text after the
  selection.  The part before \<open>selStart\<close> and the part after \<open>selEnd\<close> are the ones of
  the old value.
\<close>

theorem formatText_wraps_selection:
  assumes "(formatter, m) \<in> set wrapMarkers"
    and "selStart \<le> selEnd" and "selEnd \<le> length val"
  shows "\<exists>new. formatText formatter url (Some (selStart, selEnd)) val = Some new \<and>
           new = take selStart val @ m @ take (selEnd - selStart) (drop selStart val) @ m
                   @ drop selEnd val \<and>
           take selStart new = take selStart val \<and>
           drop (selEnd + 2 * length m) new = drop selEnd val"
proof -
  note fm = formattedText_wrap [OF assms(1)]
  let ?a = "take selStart val"
  let ?b = "take (selEnd - selStart) (drop selStart val)"
  let ?new = "?a @ m @ ?b @ m @ drop selEnd val"
  have eq: "formatText formatter url (Some (selStart, selEnd)) val = Some ?new"
    using assms(2)
    by (simp add: formatText_def fm substring_take_drop substring_from_zero substringFrom_def)
  have l1: "length ?a = selStart" using assms by simp
  have l2: "length ?b = selEnd - selStart" using assms by simp
  have t: "take selStart ?new = ?a" using l1 by simp
  have "length (?a @ m @ ?b @ m) = selEnd + 2 * length m"
    using l1 l2 assms(2) by simp
  then have "drop (selEnd + 2 * length m) ((?a @ m @ ?b @ m) @ drop selEnd val) = drop selEnd val"
    by (rule drop_prefix)
  then have d: "drop (selEnd + 2 * length m) ?new = drop selEnd val"
    by (simp only: append_assoc)
  from eq t d show ?thesis by blast
qed

theorem formatText_wraps_selection_witness:
  "(''bold'', ''*'') \<in> set wrapMarkers \<and> (1::nat) \<le> 3 \<and> 3 \<le> length ''hello'' \<and>
   formatText ''bold'' None (Some (1, 3)) ''hello'' = Some ''h*el*lo''"
  using formatText_wraps_selection [of "''bold''" "''*''" 1 3 "''hello''" None]
  by (simp add: wrapMarkers_def)


section \<open>The completion callback\<close>

lemma mapRows_no_complete: "OnComplete cs \<notin> set (snd (mapRows d ni pi i ls))"
proof (induction ls arbitrary: i)
  case Nil
  show ?case by simp
next
  case (Cons l ls)
  obtain m w where mw: "mapRows d ni pi (i + 1) ls = (m, w)"
    by (cases "mapRows d ni pi (i + 1) ls")
  with Cons [of "i + 1"] have "OnComplete cs \<notin> set w" by simp
  with mw show ?case by (simp split: option.splits)
qed

lemma mapContacts_Inr:
  "mapContacts csv n p = Inr r \<Longrightarrow> \<exists>d ni pi rest. r = mapRows d ni pi 1 rest"
  unfolding mapContacts_def Let_def
  by (auto split: list.splits sum.splits option.splits prod.splits)

lemma validate_no_complete: "OnComplete cs \<notin> set (snd (validateAndMapContacts c s))"
proof -
  have "OnComplete cs \<notin> set w" if "mapContacts csv n p = Inr (m, w)" for csv n p m w
    using mapContacts_Inr [OF that] mapRows_no_complete [of cs]
    by (metis snd_conv)
  then show ?thesis
    unfolding validateAndMapContacts_def
    by (auto split: option.splits sum.splits prod.splits)
qed

lemma processCSV_no_complete: "OnComplete cs \<notin> set (snd (processCSV c s f))"
  unfolding processCSV_def Let_def
  by (simp add: validate_no_complete split: list.splits)

lemma handleFileChange_no_complete: "OnComplete cs \<notin> set (snd (handleFileChange s fs))"
  unfolding handleFileChange_def Let_def
  by (simp add: processCSV_no_complete split: option.splits)

lemma handleConfirm_complete:
  "OnComplete cs \<in> set (snd (handleConfirm s)) \<Longrightarrow>
     cs = filter isValid (contacts s) \<and> cs \<noteq> []"
  unfolding handleConfirm_def Let_def by (auto split: if_splits)

lemma directSend_complete:
  "OnComplete cs \<in> set (snd (directSend s)) \<Longrightarrow>
     cs = filter isValid (contacts s) \<and> cs \<noteq> []"
  unfolding directSend_def Let_def by (auto split: if_splits)

lemma dispatch_complete:
  assumes "OnComplete cs \<in> set (snd (dispatch e s))"
  shows "cs = filter isValid (contacts s) \<and> cs \<noteq> []"
proof (cases e)
  case (FileChange fs)
  with assms show ?thesis
    by (simp add: dispatch_def handleFileChange_no_complete split: if_splits)
next
  case ClickContinue
  with assms show ?thesis
    by (simp add: dispatch_def validate_no_complete split: if_splits)
next
  case ClickConfirm
  with assms handleConfirm_complete [of cs s] show ?thesis
    by (auto simp: dispatch_def split: if_splits)
next
  case DirectSend
  with assms directSend_complete [of cs s] show ?thesis
    by (auto simp: dispatch_def split: if_splits)
next
  case (DirectChange v)
  with assms show ?thesis
    by (simp add: dispatch_def directChange_def Let_def split: if_splits)
qed (use assms in \<open>simp_all add: dispatch_def split: if_splits\<close>)

text \<open>
  Claim C2.  Whenever a handler calls \<^verbatim>\<open>onComplete\<close> (the confirm handler, the send
  button of the direct-input tab, or any event of the dialog), the argument is the
  contact batch filtered by \<open>isValid\<close>: a subsequence of the batch in batch order, all of
  whose records are valid; and the batch then holds a valid record, so the callback is
  not called on a batch without one.
\<close>

theorem onComplete_receives_valid_subsequence:
  assumes "OnComplete cs \<in> set (snd (handleConfirm s)) \<or>
           OnComplete cs \<in> set (snd (directSend s)) \<or>
           (\<exists>e. OnComplete cs \<in> set (snd (dispatch e s)))"
  shows "cs = filter isValid (contacts s) \<and> subseq cs (contacts s) \<and>
         (\<forall>c \<in> set cs. isValid c) \<and> (\<exists>c \<in> set (contacts s). isValid c)"
proof -
  from assms handleConfirm_complete directSend_complete dispatch_complete
  have "cs = filter isValid (contacts s) \<and> cs \<noteq> []" by blast
  then have eq: "cs = filter isValid (contacts s)" and ne: "cs \<noteq> []"
    by blast+
  from ne obtain c where "c \<in> set cs" by (cases cs) auto
  with eq have "c \<in> set (contacts s) \<and> isValid c" by simp
  with eq show ?thesis by auto
qed

theorem onComplete_receives_valid_subsequence_witness:
  "OnComplete [\<lparr>name = ''Ana'', phoneNumber = ''5511999998888'', isValid = True\<rparr>]
     \<in> set (snd (handleConfirm
                  (initialState\<lparr>contacts :=
                     [\<lparr>name = ''Ana'', phoneNumber = ''5511999998888'', isValid = True\<rparr>,
                      \<lparr>name = ''123'', phoneNumber = ''55123'', isValid = False\<rparr>]\<rparr>))) \<and>
   subseq [\<lparr>name = ''Ana'', phoneNumber = ''5511999998888'', isValid = True\<rparr>]
     [\<lparr>name = ''Ana'', phoneNumber = ''5511999998888'', isValid = True\<rparr>,
      \<lparr>name = ''123'', phoneNumber = ''55123'', isValid = False\<rparr>]"
proof -
  let ?b = "[\<lparr>name = ''Ana'', phoneNumber = ''5511999998888'', isValid = True\<rparr>,
             \<lparr>name = ''123'', phoneNumber = ''55123'', isValid = False\<rparr>]"
  let ?s = "initialState\<lparr>contacts := ?b\<rparr>"
  let ?cs = "[\<lparr>name = ''Ana'', phoneNumber = ''5511999998888'', isValid = True\<rparr>]"
  have h: "OnComplete ?cs \<in> set (snd (handleConfirm ?s))"
    by (simp add: handleConfirm_def initialState_def)
  then have "OnComplete ?cs \<in> set (snd (handleConfirm ?s)) \<or>
             OnComplete ?cs \<in> set (snd (directSend ?s)) \<or>
             (\<exists>e. OnComplete ?cs \<in> set (snd (dispatch e ?s)))" by (rule disjI1)
  from onComplete_receives_valid_subsequence [OF this] h show ?thesis
    by (simp add: initialState_def)
qed


section \<open>Delimiter detection\<close>

lemma detectDelimiter_unfold:
  "detectDelimiter h =
     (let c = count_list h (CHR '',''); s = count_list h (CHR '';''); t = count_list h tabChar;
          m1 = (if c > 0 then c else 0);
          b2 = (if s > m1 then '';'' else '','');
          m2 = (if s > m1 then s else m1)
      in if t > m2 then [backslash, CHR ''t''] else b2)"
  by (simp add: detectDelimiter_def delimiters_def matchCount_def regExpChar_def Let_def
      backslash_def)

text \<open>
  Claim C4, as amended.  \<open>detectDelimiter\<close> counts the commas, semicolons and tabs of the
  header line.  It returns the comma exactly when neither the semicolons nor the tabs
  outnumber the commas (so also when all counts are zero, and on every tie in which the
  comma has the highest count).  It returns the semicolon exactly when the semicolons
  outnumber the commas and the tabs do not outnumber the semicolons (so also on a tie
  between semicolon and tab above the comma count).
\<close>

theorem detectDelimiter_first_maximum:
  "(detectDelimiter h = '','' \<longleftrightarrow>
      count_list h (CHR '';'') \<le> count_list h (CHR '','') \<and>
      count_list h tabChar \<le> count_list h (CHR '','')) \<and>
   (detectDelimiter h = '';'' \<longleftrightarrow>
      count_list h (CHR '','') < count_list h (CHR '';'') \<and>
      count_list h tabChar \<le> count_list h (CHR '';''))"
  by (simp add: detectDelimiter_unfold Let_def backslash_def)

theorem detectDelimiter_first_maximum_witness:
  "detectDelimiter ''a,b,c;d'' = '','' \<and> detectDelimiter ''a;b;c,d'' = '';'' \<and>
   detectDelimiter [CHR ''x'', CHR 0x09, CHR '';'', CHR 0x09] \<noteq> '';'' \<and>
   detectDelimiter [CHR ''x'', CHR 0x09, CHR '';'', CHR 0x09] \<noteq> '',''"
  using detectDelimiter_first_maximum [of "''a,b,c;d''"]
    detectDelimiter_first_maximum [of "''a;b;c,d''"]
    detectDelimiter_first_maximum [of "[CHR ''x'', CHR 0x09, CHR '';'', CHR 0x09]"]
  by (simp add: tabChar_def)

text \<open>
  The claim as first stated fails: with one semicolon and one tab (a tie for the highest
  count) the result is the semicolon, not the comma; and with one semicolon, two tabs
  and no comma, the result is not the semicolon.
\<close>

theorem detectDelimiter_tie_counterexample:
  "count_list [CHR ''a'', CHR '';'', CHR ''b'', CHR 0x09, CHR ''c''] (CHR '';'') =
     count_list [CHR ''a'', CHR '';'', CHR ''b'', CHR 0x09, CHR ''c''] tabChar \<and>
   detectDelimiter [CHR ''a'', CHR '';'', CHR ''b'', CHR 0x09, CHR ''c''] \<noteq> '','' \<and>
   count_list [CHR '';'', CHR 0x09, CHR 0x09] (CHR '','') <
     count_list [CHR '';'', CHR 0x09, CHR 0x09] (CHR '';'') \<and>
   detectDelimiter [CHR '';'', CHR 0x09, CHR 0x09] \<noteq> '';''"
  by (simp add: detectDelimiter_unfold Let_def tabChar_def backslash_def)


section \<open>Direct input\<close>

lemma filter_dropWhile_disjoint:
  "(\<And>x. q x \<Longrightarrow> \<not> p x) \<Longrightarrow> filter p (dropWhile q xs) = filter p xs"
  by (induction xs) auto

lemma digits_dropWhile_space: "filter isDigit (dropWhile isSpace xs) = filter isDigit xs"
  by (rule filter_dropWhile_disjoint) (auto simp: isSpace_def isDigit_def)

lemma removeNonDigits_trim: "removeNonDigits (trim l) = removeNonDigits l"
  by (simp add: removeNonDigits_def trim_def rev_filter [symmetric] digits_dropWhile_space)

lemma digits_trim: "filter isDigit (trim l) = filter isDigit l"
  using removeNonDigits_trim [of l] by (simp add: removeNonDigits_def)

text \<open>
  Claim C3, as amended.  The direct-input mapper produces one record per line of the
  pasted text that holds at least one digit, in line order: the name is the digit string
  of the line, the phone number is that string with 55 in front unless it starts with 55
  already, and the record is valid iff the digit string has at least 10 digits.  The
  text of two lines 11999998888 and 123 gives a valid record and an invalid one with
  phone number 55123.
\<close>

theorem mapDirectInput_per_digit_line:
  "mapDirectInput v =
     map (\<lambda>l. let d = filter isDigit l
              in \<lparr>name = d, phoneNumber = (if prefix ''55'' d then d else ''55'' @ d),
                  isValid = (10 \<le> length d)\<rparr>)
         (filter (\<lambda>l. filter isDigit l \<noteq> []) (split v [newline])) \<and>
   mapDirectInput (''11999998888'' @ [newline] @ ''123'') =
     [\<lparr>name = ''11999998888'', phoneNumber = ''5511999998888'', isValid = True\<rparr>,
      \<lparr>name = ''123'', phoneNumber = ''55123'', isValid = False\<rparr>]"
proof
  show "mapDirectInput v =
     map (\<lambda>l. let d = filter isDigit l
              in \<lparr>name = d, phoneNumber = (if prefix ''55'' d then d else ''55'' @ d),
                  isValid = (10 \<le> length d)\<rparr>)
         (filter (\<lambda>l. filter isDigit l \<noteq> []) (split v [newline]))"
    unfolding mapDirectInput_def Let_def startsWith_def removeNonDigits_def
    by (simp add: filter_map comp_def digits_trim)
  show "mapDirectInput (''11999998888'' @ [newline] @ ''123'') =
     [\<lparr>name = ''11999998888'', phoneNumber = ''5511999998888'', isValid = True\<rparr>,
      \<lparr>name = ''123'', phoneNumber = ''55123'', isValid = False\<rparr>]"
    by (simp add: mapDirectInput_def split_def matchLiteral_def newline_def trim_def
        isSpace_def removeNonDigits_def isDigit_def startsWith_def)
qed

theorem mapDirectInput_per_digit_line_witness:
  "mapDirectInput ''+55 (11) 98765-4321'' =
     [\<lparr>name = ''5511987654321'', phoneNumber = ''5511987654321'', isValid = True\<rparr>]"
  using mapDirectInput_per_digit_line [of "''+55 (11) 98765-4321''"]
  by (simp add: split_def matchLiteral_def newline_def isDigit_def Let_def)

text \<open>
  The claim as first stated fails: the pasted text abc has one non-empty trimmed line
  and the mapper produces no record for it.
\<close>

theorem mapDirectInput_nondigit_line_counterexample:
  "split ''abc'' [newline] = [''abc''] \<and> trim ''abc'' = ''abc'' \<and>
   mapDirectInput ''abc'' = []"
  by (simp add: mapDirectInput_def split_def matchLiteral_def newline_def trim_def
        isSpace_def removeNonDigits_def isDigit_def)

section \<open>Column guessing\<close>

lemma findIndex_Some_iff:
  "findIndex p xs = Some i \<longleftrightarrow> i < length xs \<and> p (xs ! i) \<and> (\<forall>j<i. \<not> p (xs ! j))"
proof (induction xs arbitrary: i)
  case Nil
  show ?case by simp
next
  case (Cons x xs)
  show ?case
  proof (cases "p x")
    case True
    then show ?thesis by (cases i) auto
  next
    case False
    show ?thesis
    proof (cases i)
      case 0
      with False show ?thesis by auto
    next
      case (Suc k)
      have "(\<forall>j<Suc k. \<not> p ((x # xs) ! j)) \<longleftrightarrow> (\<forall>j<k. \<not> p (xs ! j))"
        using False by (auto simp: less_Suc_eq_0_disj)
      with False Suc Cons [of k] show ?thesis by auto
    qed
  qed
qed

lemma findIndex_None_iff: "findIndex p xs = None \<longleftrightarrow> (\<forall>x \<in> set xs. \<not> p x)"
  by (induction xs) auto

text \<open>
  Claim C8, as amended.  Each guess returns the index of the first header, in the
  original order, that the guess accepts, and nothing when no header is accepted.  A
  header is accepted for the name when its lower-cased, trimmed text equals one of nome,
  name, cliente, contato, or contains nome or name; for the phone when that text equals
  one of telefone, phone, celular, whatsapp, numero, number, tel, or contains one of
  telefone, phone, celular, whatsapp.  A header that is telefone in any case is accepted
  for the phone, and one that is nome in any case for the name.
\<close>

theorem guessColumn_first_match:
  "(guessNameColumn hs = Some i \<longleftrightarrow>
      i < length hs \<and> isNameHeader (hs ! i) \<and> (\<forall>j<i. \<not> isNameHeader (hs ! j))) \<and>
   (guessNameColumn hs = None \<longleftrightarrow> (\<forall>x \<in> set hs. \<not> isNameHeader x)) \<and>
   (guessPhoneColumn hs = Some i \<longleftrightarrow>
      i < length hs \<and> isPhoneHeader (hs ! i) \<and> (\<forall>j<i. \<not> isPhoneHeader (hs ! j))) \<and>
   (guessPhoneColumn hs = None \<longleftrightarrow> (\<forall>x \<in> set hs. \<not> isPhoneHeader x)) \<and>
   (isNameHeader h \<longleftrightarrow>
      trim (toLowerCase h) \<in> {''nome'', ''name'', ''cliente'', ''contato''} \<or>
      (\<exists>l \<in> {''nome'', ''name''}. sublist l (trim (toLowerCase h)))) \<and>
   (isPhoneHeader h \<longleftrightarrow>
      trim (toLowerCase h) \<in>
        {''telefone'', ''phone'', ''celular'', ''whatsapp'', ''numero'', ''number'', ''tel''} \<or>
      (\<exists>l \<in> {''telefone'', ''phone'', ''celular'', ''whatsapp''}.
         sublist l (trim (toLowerCase h)))) \<and>
   (toLowerCase h = ''telefone'' \<longrightarrow> isPhoneHeader h) \<and>
   (toLowerCase h = ''nome'' \<longrightarrow> isNameHeader h)"
proof -
  have n: "isNameHeader h \<longleftrightarrow>
      trim (toLowerCase h) \<in> {''nome'', ''name'', ''cliente'', ''contato''} \<or>
      (\<exists>l \<in> {''nome'', ''name''}. sublist l (trim (toLowerCase h)))"
    unfolding isNameHeader_def Let_def includesStr_def by blast
  have p: "isPhoneHeader h \<longleftrightarrow>
      trim (toLowerCase h) \<in>
        {''telefone'', ''phone'', ''celular'', ''whatsapp'', ''numero'', ''number'', ''tel''} \<or>
      (\<exists>l \<in> {''telefone'', ''phone'', ''celular'', ''whatsapp''}.
         sublist l (trim (toLowerCase h)))"
    unfolding isPhoneHeader_def Let_def includesStr_def by blast
  have t1: "trim ''telefone'' = ''telefone''" by (simp add: trim_def isSpace_def)
  have t2: "trim ''nome'' = ''nome''" by (simp add: trim_def isSpace_def)
  have tp: "toLowerCase h = ''telefone'' \<longrightarrow> isPhoneHeader h"
    unfolding isPhoneHeader_def Let_def using t1 by simp
  have tn: "toLowerCase h = ''nome'' \<longrightarrow> isNameHeader h"
    unfolding isNameHeader_def Let_def using t2 by simp
  show ?thesis
    unfolding guessNameColumn_def guessPhoneColumn_def findIndex_Some_iff findIndex_None_iff
    using n p tp tn by blast
qed

theorem guessColumn_first_match_witness:
  "toLowerCase ''TELEFONE'' = ''telefone'' \<and> isPhoneHeader ''TELEFONE'' \<and>
   guessPhoneColumn [''ID'', ''Nome'', ''TELEFONE''] = Some 2"
proof -
  let ?hs = "[''ID'', ''Nome'', ''TELEFONE'']"
  note th = guessColumn_first_match [of ?hs 2 "''TELEFONE''"]
  have l: "toLowerCase ''TELEFONE'' = ''telefone''" by code_simp
  with th have p: "isPhoneHeader ''TELEFONE''" by blast
  have n0: "\<not> isPhoneHeader ''ID''" by code_simp
  have n1: "\<not> isPhoneHeader ''Nome''" by code_simp
  have "\<forall>j<2. \<not> isPhoneHeader (?hs ! j)"
    using n0 n1 by (simp add: less_Suc_eq numeral_2_eq_2)
  moreover have "isPhoneHeader (?hs ! 2)" using p by simp
  moreover have "(2::nat) < length ?hs" by simp
  ultimately have "guessPhoneColumn ?hs = Some 2" using th by blast
  with l p show ?thesis by blast
qed

text \<open>
  The claim as first stated fails: the labels tel and cliente are matched by equality
  only, so a header that merely contains one of them is not found.
\<close>

theorem guessColumn_counterexample:
  "guessPhoneColumn [''id'', ''tel.''] = None \<and> sublist ''tel'' (trim (toLowerCase ''tel.'')) \<and>
   guessNameColumn [''id'', ''meu cliente''] = None \<and>
   sublist ''cliente'' (trim (toLowerCase ''meu cliente''))"
  by code_simp



section \<open>Column selection after a parse\<close>

lemma concat_readSlices: "concat (readSlices t k) = drop k t"
proof (induction t k rule: readSlices.induct)
  case (1 t k)
  show ?case
  proof (cases "k < length t")
    case True
    have "take CHUNK_SIZE (drop k t) @ drop (k + CHUNK_SIZE) t = drop k t"
      by (metis append_take_drop_id drop_drop add.commute)
    moreover from True 1 have "concat (readSlices t (k + CHUNK_SIZE)) = drop (k + CHUNK_SIZE) t"
      by simp
    ultimately show ?thesis using True
      by (subst readSlices.simps) (simp del: drop_drop)
  next
    case False
    then show ?thesis by (subst readSlices.simps) simp
  qed
qed

lemma readChunks_double: "readChunks txt = txt @ txt"
  by (simp add: readChunks_def concat_readSlices)

lemma splitBy_nonempty: "splitBy m acc s \<noteq> []"
  by (induction m acc s rule: splitBy.induct) (auto split: nat.splits)

lemma splitRow_nonempty: "splitRow d l \<noteq> []"
  by (simp add: splitRow_def split_def splitBy_nonempty)

lemma validate_keeps_selection:
  "nameColumn (fst (validateAndMapContacts c s)) = nameColumn s \<and>
   phoneColumn (fst (validateAndMapContacts c s)) = phoneColumn s \<and>
   columns (fst (validateAndMapContacts c s)) = columns s"
  unfolding validateAndMapContacts_def
  by (simp split: option.splits sum.splits prod.splits)

lemmas csv_eval = csvLines_def splitLines_def matchLineBreak_def backslash_def trim_def
  isSpace_def splitRow_def split_def matchLiteral_def stripQuotes_def dquote_def stripBom_def
  bomLiteral_def startsWith_def substringFrom_def detectDelimiter_unfold tabChar_def Let_def

text \<open>
  Claim C9, as amended.  After a successful parse (the file is readable and has a
  non-blank line) the header list is not empty and becomes the column list.  When the
  guess recognises no name column the name selection is the first header; when it
  recognises no phone column the phone selection is the header at index 1, and is
  undefined when there are fewer than two headers.  A recognised column is selected
  itself.  So the name selection is always defined, and the phone selection is defined
  iff a phone column was recognised or there are at least two headers.
\<close>

theorem processCSV_column_selection:
  assumes "readable f" and "csvLines (readChunks (content f)) = l # rest"
    and "headers = splitRow (detectDelimiter (stripBom l)) (stripBom l)"
    and "s' = fst (processCSV c s f)"
  shows "headers \<noteq> [] \<and> columns s' = headers \<and>
         (guessNameColumn headers = None \<longrightarrow> nameColumn s' = Some (hd headers)) \<and>
         (guessPhoneColumn headers = None \<longrightarrow>
            phoneColumn s' = (if 1 < length headers then Some (headers ! 1) else None)) \<and>
         (\<forall>i. guessNameColumn headers = Some i \<longrightarrow> nameColumn s' = Some (headers ! i)) \<and>
         (\<forall>i. guessPhoneColumn headers = Some i \<longrightarrow> phoneColumn s' = Some (headers ! i)) \<and>
         nameColumn s' \<noteq> None \<and>
         (phoneColumn s' \<noteq> None \<longleftrightarrow> guessPhoneColumn headers \<noteq> None \<or> 1 < length headers)"
proof -
  have ne: "headers \<noteq> []" using assms(3) by (simp add: splitRow_nonempty)
  have lt: "i < length headers" if "findIndex p headers = Some i" for p i
    using that by (simp add: findIndex_Some_iff)
  define s1 where "s1 = s\<lparr>columns := headers,
        previewData := map (splitRow (detectDelimiter (stripBom l))) (take 5 (stripBom l # rest)),
        isProcessing := False,
        nameColumn := (case guessNameColumn headers of Some i \<Rightarrow> at headers i | None \<Rightarrow> at headers 0),
        phoneColumn := (case guessPhoneColumn headers of Some i \<Rightarrow> at headers i | None \<Rightarrow> at headers 1)\<rparr>"
  have p: "processCSV c s f = validateAndMapContacts c s1"
    using assms(1,2) unfolding processCSV_def Let_def s1_def assms(3) by simp
  have c: "columns s' = headers"
    and n: "nameColumn s' = (case guessNameColumn headers of Some i \<Rightarrow> at headers i | None \<Rightarrow> at headers 0)"
    and ph: "phoneColumn s' = (case guessPhoneColumn headers of Some i \<Rightarrow> at headers i | None \<Rightarrow> at headers 1)"
    unfolding assms(4) p using validate_keeps_selection [of c s1] by (simp_all add: s1_def)
  have n0: "at headers 0 = Some (hd headers)" using ne by (cases headers) (simp_all add: at_def)
  have ni: "at headers i = Some (headers ! i)" if "guessNameColumn headers = Some i" for i
    using lt that by (simp add: at_def guessNameColumn_def)
  have pi: "at headers i = Some (headers ! i)" if "guessPhoneColumn headers = Some i" for i
    using lt that by (simp add: at_def guessPhoneColumn_def)
  have a: "guessNameColumn headers = None \<longrightarrow> nameColumn s' = Some (hd headers)"
    using n n0 by simp
  have b: "guessPhoneColumn headers = None \<longrightarrow>
            phoneColumn s' = (if 1 < length headers then Some (headers ! 1) else None)"
    using ph by (simp add: at_def)
  have d: "\<forall>i. guessNameColumn headers = Some i \<longrightarrow> nameColumn s' = Some (headers ! i)"
    using n ni by simp
  have e: "\<forall>i. guessPhoneColumn headers = Some i \<longrightarrow> phoneColumn s' = Some (headers ! i)"
    using ph pi by simp
  have g: "nameColumn s' \<noteq> None" using a d by (cases "guessNameColumn headers") auto
  have h: "phoneColumn s' \<noteq> None \<longleftrightarrow> guessPhoneColumn headers \<noteq> None \<or> 1 < length headers"
    using b e by (cases "guessPhoneColumn headers") auto
  from ne c a b d e g h show ?thesis by blast
qed

theorem processCSV_column_selection_witness:
  "nameColumn (fst (processCSV initialState initialState
      \<lparr>fileName = ''contacts.csv'', fileType = ''text/csv'', content = ''id;fone'',
         readable = True\<rparr>)) = Some ''id'' \<and>
   phoneColumn (fst (processCSV initialState initialState
      \<lparr>fileName = ''contacts.csv'', fileType = ''text/csv'', content = ''id;fone'',
         readable = True\<rparr>)) = Some ''foneid''"
proof -
  let ?f = "\<lparr>fileName = ''contacts.csv'', fileType = ''text/csv'', content = ''id;fone'',
              readable = True\<rparr>"
  let ?hs = "[''id'', ''foneid'', ''fone'']"
  have r: "readable ?f" by simp
  have l: "csvLines (readChunks (content ?f)) = [''id;foneid;fone'']"
    by (simp add: readChunks_double csv_eval)
  have h: "?hs = splitRow (detectDelimiter (stripBom ''id;foneid;fone''))
                   (stripBom ''id;foneid;fone'')"
    by (simp add: csv_eval)
  have g: "guessNameColumn ?hs = None" "guessPhoneColumn ?hs = None"
    by code_simp+
  from processCSV_column_selection [OF r l h refl, of initialState initialState] g
  show ?thesis by simp
qed

text \<open>
  The claim as first stated fails: for a file whose text is the single letter x, the
  parse succeeds with one header and the phone selection is undefined; for a file whose
  text is a comma followed by x, the name selection is the empty string.
\<close>

theorem processCSV_selection_counterexample:
  "phoneColumn (fst (processCSV initialState initialState
      \<lparr>fileName = ''contacts.csv'', fileType = ''text/csv'', content = ''x'', readable = True\<rparr>)) = None \<and>
   columns (fst (processCSV initialState initialState
      \<lparr>fileName = ''contacts.csv'', fileType = ''text/csv'', content = ''x'', readable = True\<rparr>)) = [''xx''] \<and>
   nameColumn (fst (processCSV initialState initialState
      \<lparr>fileName = ''contacts.csv'', fileType = ''text/csv'', content = '',x'', readable = True\<rparr>)) = Some []"
proof -
  have l1: "csvLines (readChunks ''x'') = [''xx'']"
    by (simp add: readChunks_double csv_eval)
  have h1: "splitRow (detectDelimiter (stripBom ''xx'')) (stripBom ''xx'') = [''xx'']"
    by (simp add: csv_eval)
  have g1: "guessNameColumn [''xx''] = None" "guessPhoneColumn [''xx''] = None"
    by code_simp+
  have l2: "csvLines (readChunks '',x'') = ['',x,x'']"
    by (simp add: readChunks_double csv_eval)
  have h2: "splitRow (detectDelimiter (stripBom '',x,x'')) (stripBom '',x,x'') = [[], ''x'', ''x'']"
    by (simp add: csv_eval)
  have g2: "guessNameColumn [[], ''x'', ''x''] = None" "guessPhoneColumn [[], ''x'', ''x''] = None"
    by code_simp+
  have v: "validateAndMapContacts initialState s = (s, [Toast ToastSelectionRequired])" for s
    by (simp add: validateAndMapContacts_def initialState_def falsy_def)
  show ?thesis
    by (simp add: processCSV_def Let_def l1 h1 g1 l2 h2 g2 v at_def)
qed



section \<open>Selected columns that are not in the header\<close>

lemma indexOf_None_iff: "indexOf xs x = None \<longleftrightarrow> x \<notin> set xs"
  by (auto simp: indexOf_def findIndex_None_iff)

text \<open>
  Claim C6, as amended.  Let the file be readable with a header line, and let the
  selected name column or the selected phone column not occur among the parsed headers.
  Then mapping the file with that selection fails with the error for columns that are
  not found, and the handler leaves the contact batch and the step as they were.  With
  both selections made, the handler catches the error: it clears the processing flag,
  logs the error to the console and shows the notification for contacts.  With an empty
  or undefined selection the handler returns at its first test, before any mapping, with
  the notification that asks for a selection.
\<close>

theorem column_not_found_leaves_batch:
  assumes "file' c = Some f" and "readable f"
    and "csvLines (content f) = l # rest"
    and "headerFields (detectDelimiter l) l = Inr headers"
    and "(\<forall>n. nameColumn c = Some n \<longrightarrow> n \<notin> set headers) \<or>
         (\<forall>p. phoneColumn c = Some p \<longrightarrow> p \<notin> set headers)"
  shows "mapContacts (content f) (nameColumn c) (phoneColumn c) = Inl ColumnsNotFound \<and>
         contacts (fst (validateAndMapContacts c s)) = contacts s \<and>
         step (fst (validateAndMapContacts c s)) = step s \<and>
         (\<not> falsy (nameColumn c) \<and> \<not> falsy (phoneColumn c) \<longrightarrow>
            validateAndMapContacts c s =
              (s\<lparr>isProcessing := False\<rparr>, [ConsoleError, Toast ToastContactsError])) \<and>
         (falsy (nameColumn c) \<or> falsy (phoneColumn c) \<longrightarrow>
            validateAndMapContacts c s = (s, [Toast ToastSelectionRequired]))"
proof -
  from assms(5) have "indexOfColumn headers (nameColumn c) = None \<or>
                      indexOfColumn headers (phoneColumn c) = None"
    by (auto simp: indexOfColumn_def indexOf_None_iff split: option.splits)
  then have m: "mapContacts (content f) (nameColumn c) (phoneColumn c) = Inl ColumnsNotFound"
    by (auto simp: mapContacts_def Let_def assms(3) assms(4) split: option.splits)
  have a: "validateAndMapContacts c s =
              (s\<lparr>isProcessing := False\<rparr>, [ConsoleError, Toast ToastContactsError])"
    if "\<not> falsy (nameColumn c) \<and> \<not> falsy (phoneColumn c)"
    using that by (simp add: validateAndMapContacts_def assms(1,2) m)
  have b: "validateAndMapContacts c s = (s, [Toast ToastSelectionRequired])"
    if "falsy (nameColumn c) \<or> falsy (phoneColumn c)"
    using that by (simp add: validateAndMapContacts_def)
  have "contacts (fst (validateAndMapContacts c s)) = contacts s \<and>
        step (fst (validateAndMapContacts c s)) = step s"
    using a b by (cases "falsy (nameColumn c) \<or> falsy (phoneColumn c)") auto
  with m a b show ?thesis by blast
qed

theorem column_not_found_leaves_batch_witness:
  "validateAndMapContacts
     (initialState\<lparr>file' := Some \<lparr>fileName = ''contacts.csv'', fileType = ''text/csv'',
                                   content = ''Nome,Telefone'', readable = True\<rparr>,
                    nameColumn := Some ''Name'', phoneColumn := Some ''Telefone''\<rparr>)
     (initialState\<lparr>contacts := [\<lparr>name = ''Ana'', phoneNumber = ''5511999998888'',
                                   isValid = True\<rparr>]\<rparr>) =
   (initialState\<lparr>contacts := [\<lparr>name = ''Ana'', phoneNumber = ''5511999998888'',
                                  isValid = True\<rparr>]\<rparr>,
    [ConsoleError, Toast ToastContactsError])"
proof -
  let ?f = "\<lparr>fileName = ''contacts.csv'', fileType = ''text/csv'',
              content = ''Nome,Telefone'', readable = True\<rparr>"
  let ?c = "initialState\<lparr>file' := Some ?f, nameColumn := Some ''Name'',
                          phoneColumn := Some ''Telefone''\<rparr>"
  have f: "file' ?c = Some ?f" by simp
  have r: "readable ?f" by simp
  have l: "csvLines (content ?f) = [''Nome,Telefone'']" by (simp add: csv_eval)
  have h: "headerFields (detectDelimiter ''Nome,Telefone'') ''Nome,Telefone'' =
             Inr [''Nome'', ''Telefone'']"
    by (simp add: headerFields_def csv_eval)
  have n: "(\<forall>n. nameColumn ?c = Some n \<longrightarrow> n \<notin> set [''Nome'', ''Telefone'']) \<or>
           (\<forall>p. phoneColumn ?c = Some p \<longrightarrow> p \<notin> set [''Nome'', ''Telefone''])"
    by simp
  from column_not_found_leaves_batch [OF f r l h n]
  show ?thesis by (simp add: falsy_def initialState_def)
qed



text \<open>
  The claim as first stated fails: with the name column Name selected for a file whose
  header is Nome,Telefone, the handler emits a console error before the notification,
  not a notification only; and with the empty name selection, which is not a header
  either, it emits the notification that asks for a selection and raises no error for
  columns that are not found.
\<close>

theorem column_not_found_counterexample:
  "headerFields (detectDelimiter ''Nome,Telefone'') ''Nome,Telefone'' =
     Inr [''Nome'', ''Telefone''] \<and>
   ''Name'' \<notin> set [''Nome'', ''Telefone''] \<and>
   snd (validateAndMapContacts
          (initialState\<lparr>file' := Some \<lparr>fileName = ''contacts.csv'', fileType = ''text/csv'',
                                        content = ''Nome,Telefone'', readable = True\<rparr>,
                         nameColumn := Some ''Name'', phoneColumn := Some ''Telefone''\<rparr>)
          initialState) = [ConsoleError, Toast ToastContactsError] \<and>
   [] \<notin> set [''Nome'', ''Telefone''] \<and>
   snd (validateAndMapContacts
          (initialState\<lparr>file' := Some \<lparr>fileName = ''contacts.csv'', fileType = ''text/csv'',
                                        content = ''Nome,Telefone'', readable = True\<rparr>,
                         nameColumn := Some [], phoneColumn := Some ''Telefone''\<rparr>)
          initialState) = [Toast ToastSelectionRequired]"
proof -
  have m: "mapContacts ''Nome,Telefone'' (Some ''Name'') (Some ''Telefone'') = Inl ColumnsNotFound"
    by (simp add: mapContacts_def headerFields_def indexOfColumn_def indexOf_def csv_eval)
  have h: "headerFields (detectDelimiter ''Nome,Telefone'') ''Nome,Telefone'' =
             Inr [''Nome'', ''Telefone'']"
    by (simp add: headerFields_def csv_eval)
  show ?thesis using m h
    by (simp add: validateAndMapContacts_def falsy_def initialState_def)
qed


section \<open>The steps of the dialog\<close>

lemma validate_step:
  "step (fst (validateAndMapContacts c s)) = step s \<or>
   (step (fst (validateAndMapContacts c s)) = StepPreview \<and>
    \<not> falsy (nameColumn c) \<and> \<not> falsy (phoneColumn c))"
  unfolding validateAndMapContacts_def
  by (simp split: option.splits sum.splits prod.splits)

lemma processCSV_step:
  "step (fst (processCSV c s f)) = step s \<or>
   (step (fst (processCSV c s f)) = StepPreview \<and>
    \<not> falsy (nameColumn c) \<and> \<not> falsy (phoneColumn c))"
proof (cases "readable f")
  case False
  then show ?thesis by (simp add: processCSV_def)
next
  case True
  show ?thesis
  proof (cases "csvLines (readChunks (content f))")
    case Nil
    with True show ?thesis by (simp add: processCSV_def)
  next
    case (Cons l rest)
    obtain s1 where p: "processCSV c s f = validateAndMapContacts c s1" and s1: "step s1 = step s"
      using True Cons by (simp add: processCSV_def Let_def)
    from validate_step [of c s1] show ?thesis unfolding p s1 .
  qed
qed

lemma handleFileChange_step:
  "step (fst (handleFileChange s fs)) = step s \<or>
   (step (fst (handleFileChange s fs)) = StepPreview \<and>
    \<not> falsy (nameColumn s) \<and> \<not> falsy (phoneColumn s) \<and> fs \<noteq> None)"
proof (cases fs)
  case None
  then show ?thesis by (simp add: handleFileChange_def)
next
  case (Some f)
  show ?thesis
  proof (cases "fileType f \<noteq> ''text/csv'' \<and> \<not> endsWith (fileName f) ''.csv''")
    case True
    with Some show ?thesis by (simp add: handleFileChange_def Let_def)
  next
    case False
    with Some have "handleFileChange s fs = processCSV s (s\<lparr>file' := Some f\<rparr>) f"
      by (auto simp: handleFileChange_def Let_def)
    with processCSV_step [of s "s\<lparr>file' := Some f\<rparr>" f] Some show ?thesis by simp
  qed
qed

lemma handleConfirm_step:
  "step (fst (handleConfirm s)) = step s \<or> step (fst (handleConfirm s)) = StepUpload"
  by (simp add: handleConfirm_def Let_def resetState_def)

lemma directSend_step:
  "step (fst (directSend s)) = step s \<or> step (fst (directSend s)) = StepUpload"
  by (simp add: directSend_def Let_def resetState_def)

lemma directChange_step:
  "step (fst (directChange v s)) = step s \<or>
   (step (fst (directChange v s)) = StepPreview \<and> mapDirectInput v \<noteq> [])"
  by (simp add: directChange_def Let_def)

lemma dispatch_step:
  "step (fst (dispatch e s)) = step s \<or>
   step (fst (dispatch e s)) = StepUpload \<or>
   (step (fst (dispatch e s)) = StepMap \<and> step s = StepPreview \<and> e = ClickBack) \<or>
   (step (fst (dispatch e s)) = StepPreview \<and>
      ((\<exists>v. e = DirectChange v \<and> mapDirectInput v \<noteq> []) \<or>
       ((e = ClickContinue \<and> step s = StepMap \<or>
         (\<exists>f. e = FileChange (Some f)) \<and> step s = StepUpload) \<and>
        \<not> falsy (nameColumn s) \<and> \<not> falsy (phoneColumn s))))"
proof (cases e)
  case (OpenChange b)
  then show ?thesis by (simp add: dispatch_def resetState_def)
next
  case (FileChange fs)
  with handleFileChange_step [of s fs] show ?thesis
    by (cases "dialogOpen s"; cases "step s = StepUpload") (auto simp: dispatch_def)
next
  case ClickContinue
  with validate_step [of s s] show ?thesis
    by (auto simp: dispatch_def)
next
  case ClickConfirm
  with handleConfirm_step [of s] show ?thesis
    by (auto simp: dispatch_def)
next
  case (DirectChange v)
  with directChange_step [of v s] show ?thesis
    by (auto simp: dispatch_def)
next
  case DirectSend
  with directSend_step [of s] show ?thesis
    by (auto simp: dispatch_def)
qed (simp_all add: dispatch_def)

lemma run_never_confirm: "step s \<noteq> StepConfirm \<Longrightarrow> step (run es s) \<noteq> StepConfirm"
proof (induction es arbitrary: s)
  case Nil
  then show ?case by simp
next
  case (Cons e es)
  from dispatch_step [of e s] Cons.prems have "step (fst (dispatch e s)) \<noteq> StepConfirm"
    by auto
  with Cons.IH show ?case by simp
qed

text \<open>
  Claim C7, as amended.  The step has the four values upload, map, preview and confirm.
  No event moves it to confirm, so a session that starts in the initial state never
  reaches confirm.  The step map is entered only by the back button of the preview
  step.  The step preview is entered only by a direct input that yields at least one
  record, from any step, or by a mapping pass (the continue button of the map step, or
  a file selection in the upload step) that found both a name column and a phone column
  selected.
\<close>

theorem step_transitions:
  "(step (fst (dispatch e s)) = StepConfirm \<longrightarrow> step s = StepConfirm) \<and>
   (step (fst (dispatch e s)) = StepMap \<and> step s \<noteq> StepMap \<longrightarrow>
      step s = StepPreview \<and> e = ClickBack) \<and>
   (step (fst (dispatch e s)) = StepPreview \<and> step s \<noteq> StepPreview \<longrightarrow>
      (\<exists>v. e = DirectChange v \<and> mapDirectInput v \<noteq> []) \<or>
      ((e = ClickContinue \<and> step s = StepMap \<or>
        (\<exists>f. e = FileChange (Some f)) \<and> step s = StepUpload) \<and>
       \<not> falsy (nameColumn s) \<and> \<not> falsy (phoneColumn s))) \<and>
   step (run es initialState) \<noteq> StepConfirm"
proof -
  have "step (run es initialState) \<noteq> StepConfirm"
    by (rule run_never_confirm) (simp add: initialState_def)
  with dispatch_step [of e s] show ?thesis by auto
qed

theorem step_transitions_witness:
  "step (fst (dispatch ClickBack (initialState\<lparr>dialogOpen := True, step := StepPreview\<rparr>))) = StepMap \<and>
   step (initialState\<lparr>dialogOpen := True, step := StepPreview\<rparr>) \<noteq> StepMap \<and>
   step (initialState\<lparr>dialogOpen := True, step := StepPreview\<rparr>) = StepPreview"
  using step_transitions [of ClickBack "initialState\<lparr>dialogOpen := True, step := StepPreview\<rparr>" "[]"]
  by (simp add: dispatch_def)

text \<open>
  The claim as first stated fails: pasting the number 123 in the direct-input tab moves
  the step from upload straight to preview; going back leads to map with no name column
  chosen, and pasting again moves from map to preview.
\<close>

theorem step_transitions_counterexample:
  "step (run [OpenChange True] initialState) = StepUpload \<and>
   step (run [OpenChange True, DirectChange ''123''] initialState) = StepPreview \<and>
   step (run [OpenChange True, DirectChange ''123'', ClickBack] initialState) = StepMap \<and>
   falsy (nameColumn (run [OpenChange True, DirectChange ''123'', ClickBack] initialState)) \<and>
   step (run [OpenChange True, DirectChange ''123'', ClickBack, DirectChange ''123'']
           initialState) = StepPreview"
proof -
  have m: "mapDirectInput ''123'' = [\<lparr>name = ''123'', phoneNumber = ''55123'', isValid = False\<rparr>]"
    by (simp add: mapDirectInput_def split_def matchLiteral_def newline_def trim_def
        isSpace_def removeNonDigits_def isDigit_def startsWith_def)
  show ?thesis
    by (simp add: dispatch_def directChange_def m initialState_def falsy_def)
qed

section \<open>Phone numbers of the file path\<close>

text \<open>
  Claim C1, at the failing input.  For the row with the fields Ana and (11) 99999-8888
  the mapper keeps the phone field as it is, with its parentheses, space and hyphen, and
  marks the contact valid; the digits of the field are 11999998888.  For a phone field
  without any digit the mapper puts 55 in front of the text and marks the contact valid.
\<close>

theorem mapRow_keeps_non_digits:
  "mapRow 0 1 [''Ana'', ''(11) 99999-8888''] =
     Some \<lparr>name = ''Ana'', phoneNumber = ''(11) 99999-8888'', isValid = True\<rparr> \<and>
   filter isDigit ''(11) 99999-8888'' = ''11999998888'' \<and>
   mapRow 0 1 [''Bia'', ''sem telefone''] =
     Some \<lparr>name = ''Bia'', phoneNumber = ''55sem telefone'', isValid = True\<rparr>"
  by (simp add: mapRow_def normalizePhone_def backslash_def startsWith_def isDigit_def)

text \<open>For a phone field made of digits, the file path applies the rule of the prefix.\<close>

lemma removeBackslashD_id: "backslash \<notin> set v \<Longrightarrow> removeBackslashD v = v"
  by (induction v rule: removeBackslashD.induct) auto

lemma normalizePhone_digits:
  assumes "\<forall>c \<in> set v. isDigit c"
  shows "normalizePhone v = (if length v \<le> 12 \<and> \<not> prefix ''55'' v then ''55'' @ v else v)"
proof -
  have "\<not> isDigit backslash" by (simp add: isDigit_def backslash_def)
  with assms have "backslash \<notin> set v" by blast
  then show ?thesis
    by (simp add: normalizePhone_def removeBackslashD_id startsWith_def)
qed

text \<open>
  Claim C5, at the failing input.  The file has the header Nome,Telefone and the row
  Ana,(11)99999-8888, the two lines separated by the text that the line splitter
  recognises.  In the session that opens the dialog, selects the file, pastes a number
  in the direct-input tab, goes back to the map step and continues, the batch of the
  file path holds one contact, with the phone number (11)99999-8888, in which not every
  character is a digit.
\<close>

theorem file_batch_keeps_non_digits:
  "contacts (run [OpenChange True,
                  FileChange (Some \<lparr>fileName = ''contacts.csv'', fileType = ''text/csv'',
                       content = ''Nome,Telefone'' @ [backslash, backslash, CHR ''n'']
                                 @ ''Ana,(11)99999-8888'',
                       readable = True\<rparr>),
                  DirectChange ''1'', ClickBack, ClickContinue] initialState) =
     [\<lparr>name = ''Ana'', phoneNumber = ''(11)99999-8888'', isValid = True\<rparr>] \<and>
   \<not> isDigit (CHR ''('')"
proof -
  let ?t = "''Nome,Telefone'' @ [backslash, backslash, CHR ''n''] @ ''Ana,(11)99999-8888''"
  let ?f = "\<lparr>fileName = ''contacts.csv'', fileType = ''text/csv'', content = ?t, readable = True\<rparr>"
  have m: "mapContacts ?t (Some ''Nome'') (Some ''Telefone'') =
           Inr ([\<lparr>name = ''Ana'', phoneNumber = ''(11)99999-8888'', isValid = True\<rparr>], [])"
    by (simp add: mapContacts_def headerFields_def indexOfColumn_def indexOf_def mapRow_def
        normalizePhone_def csv_eval)
  have l: "csvLines (readChunks ?t) =
             [''Nome,Telefone'', ''Ana,(11)99999-8888Nome,Telefone'', ''Ana,(11)99999-8888'']"
    by (simp add: readChunks_double csv_eval)
  have h: "splitRow (detectDelimiter (stripBom ''Nome,Telefone'')) (stripBom ''Nome,Telefone'') =
             [''Nome'', ''Telefone'']"
    by (simp add: csv_eval)
  have g: "guessNameColumn [''Nome'', ''Telefone''] = Some 0"
    "guessPhoneColumn [''Nome'', ''Telefone''] = Some 1"
    by code_simp+
  have d: "mapDirectInput ''1'' = [\<lparr>name = ''1'', phoneNumber = ''551'', isValid = False\<rparr>]"
    by (simp add: mapDirectInput_def split_def matchLiteral_def newline_def trim_def
        isSpace_def removeNonDigits_def isDigit_def startsWith_def)
  have p: "processCSV (initialState\<lparr>dialogOpen := True\<rparr>)
             (initialState\<lparr>dialogOpen := True, file' := Some ?f\<rparr>) ?f =
           (initialState\<lparr>dialogOpen := True, file' := Some ?f,
              columns := [''Nome'', ''Telefone''],
              previewData := map (splitRow '','')
                [''Nome,Telefone'', ''Ana,(11)99999-8888Nome,Telefone'', ''Ana,(11)99999-8888''],
              nameColumn := Some ''Nome'', phoneColumn := Some ''Telefone''\<rparr>,
            [Toast ToastSelectionRequired])"
    using l h g
    by (simp add: processCSV_def Let_def at_def validateAndMapContacts_def falsy_def
        initialState_def stripBom_def startsWith_def bomLiteral_def backslash_def
        detectDelimiter_unfold tabChar_def)
  show ?thesis
    using m p d
    by (simp add: dispatch_def handleFileChange_def endsWith_def directChange_def
        validateAndMapContacts_def falsy_def initialState_def isDigit_def Let_def)
qed

text \<open>On the direct-input path every phone number of the batch consists of digits.\<close>

lemma mapDirectInput_digits_only:
  assumes "c \<in> set (mapDirectInput v)"
  shows "\<forall>ch \<in> set (phoneNumber c). isDigit ch"
proof -
  have five: "isDigit (CHR ''5'')" by (simp add: isDigit_def)
  show ?thesis
    using assms five unfolding mapDirectInput_def Let_def removeNonDigits_def
    by (auto split: if_splits)
qed

end
